theory Spec2Isabelle
  imports Main
begin

section \<open>Python values of the pipeline\<close>

text \<open>
  The pipeline of \<^verbatim>\<open>pipe_in_json.py\<close> reads one JSON object per line and hands it, as a
  Python dict, to three processors in turn. A JSON value is modelled with one
  constructor per Python type the parser produces. Floats are kept abstract: the type
  parameter \<open>'f\<close> stands for Python's float and every operation of floats that the code
  reaches is a field of \<open>float_ops\<close>, so that each theorem holds for whatever the float
  arithmetic is.

  A string is a list of 8-bit characters, each read as one code point below 256; a
  Python \<^verbatim>\<open>str\<close> with other code points has no counterpart in the model.
\<close>

datatype py_error =
  KeyError | TypeError | ValueError | AttributeError | OverflowError | RuntimeError

datatype 'f json =
    JNull
  | JBool bool
  | JInt int
  | JFloat 'f
  | JStr string
  | JList "'f json list"
  | JObj "(string \<times> 'f json) list"

type_synonym 'f dict = "(string \<times> 'f json) list"

record 'f float_ops =
  fl_mul :: "'f \<Rightarrow> 'f \<Rightarrow> 'f"
  fl_is_zero :: "'f \<Rightarrow> bool"
  fl_of_int :: "int \<Rightarrow> 'f option"
  fl_is_nan :: "'f \<Rightarrow> bool"
  fl_to_int :: "'f \<Rightarrow> int option"
  fl_repr :: "'f \<Rightarrow> string"

text \<open>
  \<open>fl_mul\<close> is the product of two floats, \<open>fl_is_zero x\<close> says \<^verbatim>\<open>x == 0.0\<close>,
  \<open>fl_of_int\<close> converts an int (\<open>None\<close>: the int is too large, OverflowError),
  \<open>fl_is_nan\<close> recognises NaN, \<open>fl_to_int x\<close> is the integer a float is equal to, if
  there is one, and \<open>fl_repr\<close> is \<^verbatim>\<open>str(x)\<close>.
\<close>

text \<open>Truthiness, as \<^verbatim>\<open>if v:\<close> tests it.\<close>

fun truthy :: "'f float_ops \<Rightarrow> 'f json \<Rightarrow> bool" where
  "truthy ops JNull = False"
| "truthy ops (JBool b) = b"
| "truthy ops (JInt i) = (i \<noteq> 0)"
| "truthy ops (JFloat x) = (\<not> fl_is_zero ops x)"
| "truthy ops (JStr s) = (s \<noteq> [])"
| "truthy ops (JList xs) = (xs \<noteq> [])"
| "truthy ops (JObj kvs) = (kvs \<noteq> [])"

subsection \<open>Dicts\<close>

text \<open>
  A dict is an association list in insertion order. \<^verbatim>\<open>d.get(k, None)\<close> is \<open>dict_get\<close>,
  \<^verbatim>\<open>d[k]\<close> is \<open>dict_index\<close> (KeyError when the key is missing) and \<^verbatim>\<open>d[k] = v\<close> is
  \<open>dict_set\<close>: an existing key keeps its place, a new key goes to the end.
\<close>

definition dict_get :: "'f dict \<Rightarrow> string \<Rightarrow> 'f json" where
  "dict_get d k = (case map_of d k of None \<Rightarrow> JNull | Some v \<Rightarrow> v)"

definition dict_index :: "'f dict \<Rightarrow> string \<Rightarrow> py_error + 'f json" where
  "dict_index d k = (case map_of d k of None \<Rightarrow> Inl KeyError | Some v \<Rightarrow> Inr v)"

primrec dict_set :: "'k \<Rightarrow> 'v \<Rightarrow> ('k \<times> 'v) list \<Rightarrow> ('k \<times> 'v) list" where
  "dict_set k v [] = [(k, v)]"
| "dict_set k v (p # ps) = (if fst p = k then (k, v) # ps else p # dict_set k v ps)"

text \<open>
  \<^verbatim>\<open>table[key]\<close> where the table came from a JSON object (its keys are strings) and the
  key is any value: a list or a dict is unhashable (TypeError), and no other value than
  a string is equal to a key.
\<close>

fun json_getitem :: "'f dict \<Rightarrow> 'f json \<Rightarrow> py_error + 'f json" where
  "json_getitem t (JStr s) = dict_index t s"
| "json_getitem t (JList xs) = Inl TypeError"
| "json_getitem t (JObj kvs) = Inl TypeError"
| "json_getitem t v = Inl KeyError"

subsection \<open>Strings\<close>

function replace_from :: "string \<Rightarrow> string \<Rightarrow> string \<Rightarrow> string" where
  "replace_from old new [] = []"
| "replace_from old new (c # cs) =
     (if old \<noteq> [] \<and> take (length old) (c # cs) = old
      then new @ replace_from old new (drop (length old) (c # cs))
      else c # replace_from old new cs)"
  by pat_completeness auto
termination
  by (relation "measure (\<lambda>(old, new, s). length s)") auto

text \<open>
  \<^verbatim>\<open>s.replace(old, new)\<close>: every occurrence of \<open>old\<close>, left to right and without
  overlap; an empty \<open>old\<close> matches before every character and at the end.
\<close>

definition str_replace :: "string \<Rightarrow> string \<Rightarrow> string \<Rightarrow> string" where
  "str_replace old new s =
     (if old = [] then new @ concat (map (\<lambda>c. c # new) s) else replace_from old new s)"

definition str_strip :: "string \<Rightarrow> string \<Rightarrow> string" where
  "str_strip chars s =
     rev (dropWhile (\<lambda>c. c \<in> set chars) (rev (dropWhile (\<lambda>c. c \<in> set chars) s)))"

definition lower_char :: "char \<Rightarrow> char" where
  "lower_char c =
     (let n = (of_char c :: int)
      in if (65 \<le> n \<and> n \<le> 90) \<or> (192 \<le> n \<and> n \<le> 222 \<and> n \<noteq> 215)
         then char_of (n + 32) else c)"

definition str_lower :: "string \<Rightarrow> string" where
  "str_lower s = map lower_char s"

function dec_digits :: "int \<Rightarrow> string" where
  "dec_digits n =
     (if n < 10 then [char_of (48 + n)]
      else dec_digits (n div 10) @ [char_of (48 + n mod 10)])"
  by pat_completeness auto
termination
  by (relation "measure nat") auto

definition int_str :: "int \<Rightarrow> string" where
  "int_str i = (if i < 0 then CHR ''-'' # dec_digits (- i) else dec_digits i)"

subsection \<open>Multiplication\<close>

text \<open>
  \<^verbatim>\<open>a * b\<close> on JSON values. A bool is an int. Two ints give an int; when one operand
  is a float the other is converted to float first, which fails for an int out of the
  float range. A string or a list times an int (either order) is repeated, not at all
  for a count below one. Every other pair raises TypeError. Memory is unbounded in
  the model: a repetition is never too long.
\<close>

datatype 'f num = NInt int | NFloat 'f

fun as_num :: "'f json \<Rightarrow> 'f num option" where
  "as_num (JBool b) = Some (NInt (if b then 1 else 0))"
| "as_num (JInt i) = Some (NInt i)"
| "as_num (JFloat x) = Some (NFloat x)"
| "as_num v = None"

fun as_index :: "'f json \<Rightarrow> int option" where
  "as_index (JBool b) = Some (if b then 1 else 0)"
| "as_index (JInt i) = Some i"
| "as_index v = None"

fun num_mul :: "'f float_ops \<Rightarrow> 'f num \<Rightarrow> 'f num \<Rightarrow> py_error + 'f json" where
  "num_mul ops (NInt a) (NInt b) = Inr (JInt (a * b))"
| "num_mul ops (NFloat x) (NFloat y) = Inr (JFloat (fl_mul ops x y))"
| "num_mul ops (NInt a) (NFloat y) =
     (case fl_of_int ops a of None \<Rightarrow> Inl OverflowError
      | Some x \<Rightarrow> Inr (JFloat (fl_mul ops x y)))"
| "num_mul ops (NFloat x) (NInt b) =
     (case fl_of_int ops b of None \<Rightarrow> Inl OverflowError
      | Some y \<Rightarrow> Inr (JFloat (fl_mul ops x y)))"

fun seq_repeat :: "'f json \<Rightarrow> int \<Rightarrow> ('f json) option" where
  "seq_repeat (JStr s) n = Some (JStr (concat (replicate (nat n) s)))"
| "seq_repeat (JList xs) n = Some (JList (concat (replicate (nat n) xs)))"
| "seq_repeat v n = None"

definition py_mul :: "'f float_ops \<Rightarrow> 'f json \<Rightarrow> 'f json \<Rightarrow> py_error + 'f json" where
  "py_mul ops a b =
     (case (as_num a, as_num b) of
        (Some x, Some y) \<Rightarrow> num_mul ops x y
      | _ \<Rightarrow>
        (case (seq_repeat a 0, as_index b) of
           (Some _, Some n) \<Rightarrow> (case seq_repeat a n of Some r \<Rightarrow> Inr r | None \<Rightarrow> Inl TypeError)
         | _ \<Rightarrow>
           (case (as_index a, seq_repeat b 0) of
              (Some n, Some _) \<Rightarrow>
                (case seq_repeat b n of Some r \<Rightarrow> Inr r | None \<Rightarrow> Inl TypeError)
            | _ \<Rightarrow> Inl TypeError)))"

section \<open>ExchangeProcessor\<close>

text \<open>
  The rate table is fetched from a URL by \<^verbatim>\<open>get_rates\<close>; here it is the constructor's
  argument. \<^verbatim>\<open>process\<close> mutates the record it is given, so the model returns the record
  as it is after the call, together with the exception raised, if any.
\<close>

record 'f exchange =
  ex_rates :: "'f dict"
  default_currency :: string
  currency_key :: string

definition ExchangeProcessor :: "'f dict \<Rightarrow> string \<Rightarrow> 'f exchange" where
  "ExchangeProcessor rates currency =
     \<lparr>ex_rates = rates, default_currency = currency,
      currency_key = ''conv'' @ str_lower currency @ ''value''\<rparr>"

definition exchange_process ::
  "'f float_ops \<Rightarrow> 'f exchange \<Rightarrow> 'f dict \<Rightarrow> 'f dict \<times> py_error option" where
  "exchange_process ops ex data =
     (if truthy ops (dict_get data ''convvalue'')
         \<and> dict_get data ''convvalueunit'' \<noteq> JStr (default_currency ex)
      then
        (case dict_index data ''convvalueunit'' of
           Inl e \<Rightarrow> (data, Some e)
         | Inr unit \<Rightarrow>
           (case json_getitem (ex_rates ex) unit of
              Inl e \<Rightarrow> (data, Some e)
            | Inr rate \<Rightarrow>
              (case dict_index data ''convvalue'' of
                 Inl e \<Rightarrow> (data, Some e)
               | Inr v \<Rightarrow>
                 (case py_mul ops rate v of
                    Inl e \<Rightarrow> (data, Some e)
                  | Inr r \<Rightarrow> (dict_set (currency_key ex) r data, None)))))
      else (data, None))"

definition exchange_close :: "'f exchange \<Rightarrow> 'f exchange" where
  "exchange_close ex = ex"

section \<open>UUID validation\<close>

text \<open>
  \<^verbatim>\<open>int(s, 16)\<close> as CPython reads it: white space around the literal, an optional sign,
  an optional \<^verbatim>\<open>0x\<close> prefix, then hexadecimal digits, where single underscores may
  separate digits (and one may follow the prefix). \<open>None\<close> is ValueError.
\<close>

definition int_space :: "char \<Rightarrow> bool" where
  "int_space c = ((of_char c :: int) \<in> {9, 10, 11, 12, 13, 32, 133, 160})"

definition hex_value :: "char \<Rightarrow> int option" where
  "hex_value c =
     (let n = (of_char c :: int)
      in if 48 \<le> n \<and> n \<le> 57 then Some (n - 48)
         else if 97 \<le> n \<and> n \<le> 102 then Some (n - 87)
         else if 65 \<le> n \<and> n \<le> 70 then Some (n - 55)
         else None)"

definition int_digit :: "char \<Rightarrow> bool" where
  "int_digit c = (hex_value c \<noteq> None \<or> c = CHR ''_'')"

fun skip_sign :: "string \<Rightarrow> bool \<times> string" where
  "skip_sign [] = (False, [])"
| "skip_sign (c # cs) =
     (if c = CHR ''+'' then (False, cs)
      else if c = CHR ''-'' then (True, cs)
      else (False, c # cs))"

fun skip_prefix :: "string \<Rightarrow> string" where
  "skip_prefix (c0 # c1 # cs) =
     (if c0 = CHR ''0'' \<and> (c1 = CHR ''x'' \<or> c1 = CHR ''X'')
      then (case cs of [] \<Rightarrow> [] | u # r \<Rightarrow> if u = CHR ''_'' then r else u # r)
      else c0 # c1 # cs)"
| "skip_prefix cs = cs"

fun underscores_ok :: "char \<Rightarrow> string \<Rightarrow> bool" where
  "underscores_ok prev [] = (prev \<noteq> CHR ''_'')"
| "underscores_ok prev (c # cs) =
     (\<not> (c = CHR ''_'' \<and> prev = CHR ''_'') \<and> underscores_ok c cs)"

fun digits_value :: "int \<Rightarrow> string \<Rightarrow> int" where
  "digits_value acc [] = acc"
| "digits_value acc (c # cs) =
     (case hex_value c of
        None \<Rightarrow> digits_value acc cs
      | Some d \<Rightarrow> digits_value (16 * acc + d) cs)"

definition py_int16 :: "string \<Rightarrow> int option" where
  "py_int16 s =
     (let (neg, s2) = skip_sign (dropWhile int_space s);
          s3 = skip_prefix s2;
          body = takeWhile int_digit s3;
          rest = dropWhile int_digit s3
      in if body = [] \<or> \<not> underscores_ok CHR ''_'' body \<or> dropWhile int_space rest \<noteq> []
         then None
         else Some ((if neg then - 1 else 1) * digits_value 0 body))"

text \<open>
  \<^verbatim>\<open>uuid.UUID(x)\<close> with its one positional argument \<^verbatim>\<open>hex\<close>: None leaves no
  argument given (TypeError); a value that is not a string has no \<^verbatim>\<open>replace\<close>
  (AttributeError); a string loses \<^verbatim>\<open>urn:\<close>, \<^verbatim>\<open>uuid:\<close>, braces at both ends and
  hyphens, and must then be 32 characters that \<^verbatim>\<open>int(_, 16)\<close> accepts, with a value
  of 128 bits (ValueError otherwise). The UUID is represented by its integer.
\<close>

fun uuid_UUID :: "'f json \<Rightarrow> py_error + int" where
  "uuid_UUID JNull = Inl TypeError"
| "uuid_UUID (JStr s) =
     (let hex = str_replace ''uuid:'' [] (str_replace ''urn:'' [] s);
          hex = str_replace ''-'' [] (str_strip ''{}'' hex)
      in if length hex \<noteq> 32 then Inl ValueError
         else (case py_int16 hex of
                 None \<Rightarrow> Inl ValueError
               | Some i \<Rightarrow> if 0 \<le> i \<and> i < 2 ^ 128 then Inr i else Inl ValueError))"
| "uuid_UUID v = Inl AttributeError"

text \<open>
  \<^verbatim>\<open>Processor.is_valid_uuid\<close> returns the UUID, or False where \<^verbatim>\<open>uuid.UUID\<close> raised
  ValueError; any other exception passes through. A UUID object is always truthy.
\<close>

datatype uuid_result = PyUUID int | PyFalse

definition is_valid_uuid :: "'f json \<Rightarrow> py_error + uuid_result" where
  "is_valid_uuid uuid_to_test =
     (case uuid_UUID uuid_to_test of
        Inr u \<Rightarrow> Inr (PyUUID u)
      | Inl e \<Rightarrow> if e = ValueError then Inr PyFalse else Inl e)"

fun uuid_truthy :: "uuid_result \<Rightarrow> bool" where
  "uuid_truthy (PyUUID u) = True"
| "uuid_truthy PyFalse = False"

section \<open>Sinks\<close>

text \<open>
  A \<^verbatim>\<open>jsonlines\<close> writer opened in append mode: the path it was opened on, the records
  written through it so far, each as it was at the moment of the write, and whether it
  has been closed. Opening and writing never fail for reasons of the file system in
  the model. Writing through a closed writer raises RuntimeError; closing twice is
  allowed.
\<close>

record 'f sink =
  sink_path :: string
  sink_lines :: "'f dict list"
  sink_closed :: bool

definition jsonlines_open :: "string \<Rightarrow> 'f sink" where
  "jsonlines_open path = \<lparr>sink_path = path, sink_lines = [], sink_closed = False\<rparr>"

definition sink_write :: "'f sink \<Rightarrow> 'f dict \<Rightarrow> 'f sink \<times> py_error option" where
  "sink_write w obj =
     (if sink_closed w then (w, Some RuntimeError)
      else (w\<lparr>sink_lines := sink_lines w @ [obj]\<rparr>, None))"

definition sink_close :: "'f sink \<Rightarrow> 'f sink" where
  "sink_close w = w\<lparr>sink_closed := True\<rparr>"

section \<open>ValidationProcessor\<close>

record 'f validator =
  errors_output :: string
  errors_logger :: "'f sink"

definition ValidationProcessor :: "string \<Rightarrow> 'f validator" where
  "ValidationProcessor path = \<lparr>errors_output = path, errors_logger = jsonlines_open path\<rparr>"

definition validation_write ::
  "'f validator \<Rightarrow> 'f dict \<Rightarrow> 'f dict \<times> 'f validator \<times> py_error option" where
  "validation_write vp data =
     (case sink_write (errors_logger vp) data of
        (w, e) \<Rightarrow> (data, vp\<lparr>errors_logger := w\<rparr>, e))"

definition validation_process ::
  "'f float_ops \<Rightarrow> 'f validator \<Rightarrow> 'f dict \<Rightarrow> 'f dict \<times> 'f validator \<times> py_error option"
  where
  "validation_process ops vp data =
     (if \<not> truthy ops (dict_get data ''linkid'') then validation_write vp data
      else
        (case dict_index data ''linkid'' of
           Inl e \<Rightarrow> (data, vp, Some e)
         | Inr linkid \<Rightarrow>
           (case is_valid_uuid linkid of
              Inl e \<Rightarrow> (data, vp, Some e)
            | Inr r \<Rightarrow>
                if \<not> uuid_truthy r then validation_write vp data
                else (data, vp, None))))"

definition validation_close :: "'f validator \<Rightarrow> 'f validator" where
  "validation_close vp = vp\<lparr>errors_logger := sink_close (errors_logger vp)\<rparr>"

section \<open>SplittingProcessor\<close>

text \<open>
  \<^verbatim>\<open>_cached_writers\<close> is a dict from the \<^verbatim>\<open>type\<close> values met so far to writers. A list
  or a dict cannot be a key (TypeError). Python compares keys with \<^verbatim>\<open>==\<close>, under which
  \<^verbatim>\<open>True\<close>, \<^verbatim>\<open>1\<close> and \<^verbatim>\<open>1.0\<close> are one key; NaN is equal to nothing, so a NaN that
  arrives in a record is never found and gets an entry of its own, told apart here by
  the number of entries the cache had when it was added.
\<close>

datatype 'f hashable = HNone | HBool bool | HInt int | HFloat 'f | HStr string

fun as_hashable :: "'f json \<Rightarrow> py_error + 'f hashable" where
  "as_hashable JNull = Inr HNone"
| "as_hashable (JBool b) = Inr (HBool b)"
| "as_hashable (JInt i) = Inr (HInt i)"
| "as_hashable (JFloat x) = Inr (HFloat x)"
| "as_hashable (JStr s) = Inr (HStr s)"
| "as_hashable (JList xs) = Inl TypeError"
| "as_hashable (JObj kvs) = Inl TypeError"

datatype 'f hkey = KNone | KInt int | KFloat 'f | KStr string | KNaN nat

fun key_of :: "'f float_ops \<Rightarrow> nat \<Rightarrow> 'f hashable \<Rightarrow> 'f hkey" where
  "key_of ops fresh HNone = KNone"
| "key_of ops fresh (HBool b) = KInt (if b then 1 else 0)"
| "key_of ops fresh (HInt i) = KInt i"
| "key_of ops fresh (HFloat x) =
     (if fl_is_nan ops x then KNaN fresh
      else (case fl_to_int ops x of Some i \<Rightarrow> KInt i | None \<Rightarrow> KFloat x))"
| "key_of ops fresh (HStr s) = KStr s"

text \<open>\<^verbatim>\<open>str(v)\<close>, as \<^verbatim>\<open>format\<close> puts a value into the path.\<close>

fun hashable_str :: "'f float_ops \<Rightarrow> 'f hashable \<Rightarrow> string" where
  "hashable_str ops HNone = ''None''"
| "hashable_str ops (HBool b) = (if b then ''True'' else ''False'')"
| "hashable_str ops (HInt i) = int_str i"
| "hashable_str ops (HFloat x) = fl_repr ops x"
| "hashable_str ops (HStr s) = s"

text \<open>
  \<^verbatim>\<open>output_path.format(type=t)\<close> for a template whose only replacement fields are
  \<^verbatim>\<open>{type}\<close>, as the constructor's documentation asks.
\<close>

definition format_type :: "string \<Rightarrow> string \<Rightarrow> string" where
  "format_type template t = str_replace ''{type}'' t template"

record 'f splitter =
  output_path :: string
  cached_writers :: "('f hkey \<times> 'f sink) list"
  strict_uuid :: bool

definition SplittingProcessor :: "string \<Rightarrow> bool \<Rightarrow> 'f splitter" where
  "SplittingProcessor path strict =
     \<lparr>output_path = path, cached_writers = [], strict_uuid = strict\<rparr>"

text \<open>
  \<^verbatim>\<open>get_writer\<close> returns a writer that lives in the cache; the model returns the key
  under which it is found there.
\<close>

definition get_writer ::
  "'f float_ops \<Rightarrow> 'f splitter \<Rightarrow> 'f json \<Rightarrow> 'f splitter \<times> (py_error + 'f hkey)" where
  "get_writer ops sp writer_type =
     (case as_hashable writer_type of
        Inl e \<Rightarrow> (sp, Inl e)
      | Inr h \<Rightarrow>
         (let k = key_of ops (length (cached_writers sp)) h
          in if map_of (cached_writers sp) k \<noteq> None then (sp, Inr k)
             else
               (let writer = jsonlines_open (format_type (output_path sp) (hashable_str ops h))
                in (sp\<lparr>cached_writers := cached_writers sp @ [(k, writer)]\<rparr>, Inr k))))"

text \<open>
  \<^verbatim>\<open>close\<close> walks the keys of the cache and closes, for each key, the writer found
  under it.
\<close>

fun close_keys ::
  "'f hkey list \<Rightarrow> ('f hkey \<times> 'f sink) list \<Rightarrow> ('f hkey \<times> 'f sink) list \<times> py_error option"
  where
  "close_keys [] cache = (cache, None)"
| "close_keys (k # ks) cache =
     (case map_of cache k of
        None \<Rightarrow> (cache, Some KeyError)
      | Some w \<Rightarrow> close_keys ks (dict_set k (sink_close w) cache))"

definition splitting_close :: "'f splitter \<Rightarrow> 'f splitter \<times> py_error option" where
  "splitting_close sp =
     (case close_keys (map fst (cached_writers sp)) (cached_writers sp) of
        (cache, e) \<Rightarrow> (sp\<lparr>cached_writers := cache\<rparr>, e))"

definition splitting_write ::
  "'f float_ops \<Rightarrow> 'f splitter \<Rightarrow> 'f dict \<Rightarrow> 'f dict \<times> 'f splitter \<times> py_error option" where
  "splitting_write ops sp data =
     (case dict_index data ''type'' of
        Inl e \<Rightarrow> (data, sp, Some e)
      | Inr t \<Rightarrow>
        (case get_writer ops sp t of
           (sp', Inl e) \<Rightarrow> (data, sp', Some e)
         | (sp', Inr k) \<Rightarrow>
           (case map_of (cached_writers sp') k of
              None \<Rightarrow> (data, sp', Some KeyError)
            | Some w \<Rightarrow>
              (case sink_write w data of
                 (w', e) \<Rightarrow>
                   (data, sp'\<lparr>cached_writers := dict_set k w' (cached_writers sp')\<rparr>, e)))))"

definition splitting_process ::
  "'f float_ops \<Rightarrow> 'f splitter \<Rightarrow> 'f dict \<Rightarrow> 'f dict \<times> 'f splitter \<times> py_error option" where
  "splitting_process ops sp data =
     (if truthy ops (dict_get data ''type'') then
        (if \<not> strict_uuid sp then splitting_write ops sp data
         else if \<not> truthy ops (dict_get data ''linkid'') then (data, sp, None)
         else
           (case dict_index data ''linkid'' of
              Inl e \<Rightarrow> (data, sp, Some e)
            | Inr linkid \<Rightarrow>
              (case is_valid_uuid linkid of
                 Inl e \<Rightarrow> (data, sp, Some e)
               | Inr r \<Rightarrow>
                   if uuid_truthy r then splitting_write ops sp data
                   else (data, sp, None))))
      else (data, sp, None))"

section \<open>The pipeline\<close>

text \<open>
  \<^verbatim>\<open>pipelines\<close> is a list of processors; \<^verbatim>\<open>pipe.process\<close> and \<^verbatim>\<open>pipe.close\<close> dispatch on
  the class. An exception raised by a processor is not caught: it ends the loop over
  the processors and the run, and nothing is printed.
\<close>

datatype 'f processor =
    Exchange "'f exchange"
  | Validation "'f validator"
  | Splitting "'f splitter"

fun process ::
  "'f float_ops \<Rightarrow> 'f processor \<Rightarrow> 'f dict \<Rightarrow> 'f dict \<times> 'f processor \<times> py_error option"
  where
  "process ops (Exchange ex) data =
     (case exchange_process ops ex data of (d, e) \<Rightarrow> (d, Exchange ex, e))"
| "process ops (Validation vp) data =
     (case validation_process ops vp data of (d, vp', e) \<Rightarrow> (d, Validation vp', e))"
| "process ops (Splitting sp) data =
     (case splitting_process ops sp data of (d, sp', e) \<Rightarrow> (d, Splitting sp', e))"

fun close :: "'f processor \<Rightarrow> 'f processor \<times> py_error option" where
  "close (Exchange ex) = (Exchange (exchange_close ex), None)"
| "close (Validation vp) = (Validation (validation_close vp), None)"
| "close (Splitting sp) = (case splitting_close sp of (sp', e) \<Rightarrow> (Splitting sp', e))"

fun process_all ::
  "'f float_ops \<Rightarrow> 'f processor list \<Rightarrow> 'f dict
     \<Rightarrow> 'f dict \<times> 'f processor list \<times> py_error option" where
  "process_all ops [] data = (data, [], None)"
| "process_all ops (pipe # pipes) data =
     (case process ops pipe data of
        (d, pipe', Some e) \<Rightarrow> (d, pipe' # pipes, Some e)
      | (d, pipe', None) \<Rightarrow>
          (case process_all ops pipes d of (d', pipes', e) \<Rightarrow> (d', pipe' # pipes', e)))"

fun close_all :: "'f processor list \<Rightarrow> 'f processor list \<times> py_error option" where
  "close_all [] = ([], None)"
| "close_all (pipe # pipes) =
     (case close pipe of
        (pipe', Some e) \<Rightarrow> (pipe' # pipes, Some e)
      | (pipe', None) \<Rightarrow> (case close_all pipes of (pipes', e) \<Rightarrow> (pipe' # pipes', e)))"

text \<open>
  The \<^verbatim>\<open>while True\<close> loop of the script over a finite stream of parsed records. The
  result is the processors as the run leaves them, \<^verbatim>\<open>rows_counter\<close>, and the exception
  that ended the run, if one did.
\<close>

fun run_loop ::
  "'f float_ops \<Rightarrow> 'f processor list \<Rightarrow> 'f dict list \<Rightarrow> int
     \<Rightarrow> 'f processor list \<times> int \<times> py_error option" where
  "run_loop ops pipelines [] rows_counter =
     (case close_all pipelines of (pipes', e) \<Rightarrow> (pipes', rows_counter, e))"
| "run_loop ops pipelines (raw_data # stream) rows_counter =
     (case process_all ops pipelines raw_data of
        (d, pipes', Some e) \<Rightarrow> (pipes', rows_counter, Some e)
      | (d, pipes', None) \<Rightarrow> run_loop ops pipes' stream (rows_counter + 1))"

definition main_pipelines :: "'f dict \<Rightarrow> 'f processor list" where
  "main_pipelines rates =
     [Exchange (ExchangeProcessor rates ''USD''),
      Validation (ValidationProcessor ''./deadletters.json''),
      Splitting (SplittingProcessor ''./{type}.json'' True)]"

definition run_main ::
  "'f float_ops \<Rightarrow> 'f dict \<Rightarrow> 'f dict list \<Rightarrow> 'f processor list \<times> int \<times> py_error option"
  where
  "run_main ops rates stream = run_loop ops (main_pipelines rates) stream 0"

text \<open>The line the script prints: the count, when the run was not ended by an exception.\<close>

definition reported_rows :: "'f processor list \<times> int \<times> py_error option \<Rightarrow> int option" where
  "reported_rows r = (case r of (pipes, n, None) \<Rightarrow> Some n | (pipes, n, Some e) \<Rightarrow> None)"

text \<open>
  An instance of the float operations for running the model on inputs: the floats
  with an integral value, each represented by that integer.
\<close>

definition integral_floats :: "int float_ops" where
  "integral_floats =
     \<lparr>fl_mul = (\<lambda>x y. x * y), fl_is_zero = (\<lambda>x. x = 0), fl_of_int = Some,
      fl_is_nan = (\<lambda>x. False), fl_to_int = Some, fl_repr = (\<lambda>x. int_str x @ ''.0'')\<rparr>"

section \<open>Notions of the specification\<close>






text \<open>
  A dict has no two equal keys. On the cache of the splitter this reads: the keys of
  the list are distinct, and the number that tells a NaN key apart is below the number
  of entries.
\<close>

fun nan_below :: "nat \<Rightarrow> 'f hkey \<Rightarrow> bool" where
  "nan_below n (KNaN i) = (i < n)"
| "nan_below n k = True"

definition cache_wf :: "('f hkey \<times> 'f sink) list \<Rightarrow> bool" where
  "cache_wf cache =
     (distinct (map fst cache) \<and> list_all (nan_below (length cache)) (map fst cache))"

text \<open>
  The run as the specification words it: each record goes through the currency stage,
  then the validation stage, then the splitting stage, each stage seeing the record as
  the stage before left it. \<open>None\<close>: some stage raised on some record.
\<close>

fun stages_in_order ::
  "'f float_ops \<Rightarrow> 'f exchange \<times> 'f validator \<times> 'f splitter \<Rightarrow> 'f dict list
     \<Rightarrow> ('f exchange \<times> 'f validator \<times> 'f splitter) option" where
  "stages_in_order ops st [] = Some st"
| "stages_in_order ops (ex, vp, sp) (record # records) =
     (case exchange_process ops ex record of
        (d1, Some e) \<Rightarrow> None
      | (d1, None) \<Rightarrow>
        (case validation_process ops vp d1 of
           (d2, vp', Some e) \<Rightarrow> None
         | (d2, vp', None) \<Rightarrow>
           (case splitting_process ops sp d2 of
              (d3, sp', Some e) \<Rightarrow> None
            | (d3, sp', None) \<Rightarrow> stages_in_order ops (ex, vp', sp') records)))"

definition close_sinks :: "('f hkey \<times> 'f sink) list \<Rightarrow> ('f hkey \<times> 'f sink) list" where
  "close_sinks cache = map (\<lambda>(k, w). (k, sink_close w)) cache"

section \<open>Properties\<close>

subsection \<open>Dicts\<close>

lemma map_of_dict_set: "map_of (dict_set k v d) = (map_of d)(k \<mapsto> v)"
  by (induction d) (auto simp: fun_eq_iff)

lemma keys_dict_set: "fst ` set (dict_set k v d) = insert k (fst ` set d)"
  by (induction d) auto

subsection \<open>The currency stage\<close>

text \<open>
  C4. When \<^verbatim>\<open>convvalue\<close> is absent, null or falsy in any other way, or when
  \<^verbatim>\<open>convvalueunit\<close> is the target currency, \<^verbatim>\<open>ExchangeProcessor.process\<close> returns
  normally and leaves the record exactly as it was.
\<close>

theorem exchange_process_noop:
  assumes "map_of data ''convvalue'' = None \<or> map_of data ''convvalue'' = Some JNull
           \<or> \<not> truthy ops (dict_get data ''convvalue'')
           \<or> map_of data ''convvalueunit'' = Some (JStr (default_currency ex))"
  shows "exchange_process ops ex data = (data, None)"
  using assms by (auto simp: exchange_process_def dict_get_def)

theorem exchange_process_noop_witness:
  "exchange_process integral_floats (ExchangeProcessor [(''DKK'', JFloat 2)] ''USD'')
     [(''convvalue'', JInt 5), (''convvalueunit'', JStr ''USD'')]
   = ([(''convvalue'', JInt 5), (''convvalueunit'', JStr ''USD'')], None)"
  by (rule exchange_process_noop) (simp add: ExchangeProcessor_def)

text \<open>
  C5. When \<^verbatim>\<open>convvalue\<close> is truthy and \<^verbatim>\<open>convvalueunit\<close> is not the target currency
  and not a key of the rate table (a missing \<^verbatim>\<open>convvalueunit\<close> included),
  \<^verbatim>\<open>ExchangeProcessor.process\<close> fails in the lookup and the record is as before: no field
  has been added. The exception raised by the lookup is KeyError, except for a unit
  that is a list or an object, which cannot be looked up at all (TypeError).
\<close>

theorem exchange_process_unknown_unit:
  assumes "truthy ops (dict_get data ''convvalue'')"
    and "dict_get data ''convvalueunit'' \<noteq> JStr (default_currency ex)"
    and "\<forall>s. dict_get data ''convvalueunit'' = JStr s \<longrightarrow> map_of (ex_rates ex) s = None"
  shows "exchange_process ops ex data =
           (data, Some (case dict_get data ''convvalueunit'' of
                          JList xs \<Rightarrow> TypeError | JObj kvs \<Rightarrow> TypeError | _ \<Rightarrow> KeyError))"
proof (cases "map_of data ''convvalueunit''")
  case None
  then show ?thesis using assms by (simp add: exchange_process_def dict_get_def dict_index_def)
next
  case (Some u)
  then show ?thesis using assms
    by (cases u) (auto simp: exchange_process_def dict_get_def dict_index_def)
qed

theorem exchange_process_unknown_unit_witness:
  "exchange_process integral_floats (ExchangeProcessor [(''DKK'', JFloat 2)] ''USD'')
     [(''convvalue'', JInt 5), (''convvalueunit'', JStr ''XYZ'')]
   = ([(''convvalue'', JInt 5), (''convvalueunit'', JStr ''XYZ'')], Some KeyError)"
proof -
  let ?ex = "ExchangeProcessor [(''DKK'', JFloat (2::int))] ''USD''"
  let ?d = "[(''convvalue'', JInt 5), (''convvalueunit'', JStr ''XYZ'')] :: int dict"
  have h1: "truthy integral_floats (dict_get ?d ''convvalue'')"
    by (simp add: dict_get_def)
  have h2: "dict_get ?d ''convvalueunit'' \<noteq> JStr (default_currency ?ex)"
    by (simp add: dict_get_def ExchangeProcessor_def)
  have h3: "\<forall>s. dict_get ?d ''convvalueunit'' = JStr s \<longrightarrow> map_of (ex_rates ?ex) s = None"
    by (simp add: dict_get_def ExchangeProcessor_def)
  show ?thesis
    using exchange_process_unknown_unit [OF h1 h2 h3] by (simp add: dict_get_def)
qed

text \<open>
  C3, as the code has it. When \<^verbatim>\<open>convvalue\<close> is truthy and \<^verbatim>\<open>convvalueunit\<close> is a key of
  the rate table other than the target currency, \<^verbatim>\<open>process\<close> computes the Python product
  of the rate and \<^verbatim>\<open>convvalue\<close>. Where that product is defined it is stored, as it is,
  under \<^verbatim>\<open>conv<lowercased currency>value\<close> (\<^verbatim>\<open>convusdvalue\<close> for USD) and every other field
  keeps its value; the product of two floats is their floating-point product and
  nothing else is done to it. Where the product is not defined (a string times a
  float, say) the exception of the product is raised and the record is unchanged.
\<close>

theorem exchange_process_converts:
  assumes "truthy ops (dict_get data ''convvalue'')"
    and "map_of data ''convvalueunit'' = Some (JStr unit)"
    and "unit \<noteq> default_currency ex"
    and "map_of (ex_rates ex) unit = Some rate"
  shows "exchange_process ops ex data =
           (case py_mul ops rate (dict_get data ''convvalue'') of
              Inl e \<Rightarrow> (data, Some e)
            | Inr product \<Rightarrow> (dict_set (currency_key ex) product data, None))
         \<and> (\<forall>product. map_of (dict_set (currency_key ex) product data) (currency_key ex) = Some product
               \<and> (\<forall>k. k \<noteq> currency_key ex \<longrightarrow>
                     map_of (dict_set (currency_key ex) product data) k = map_of data k))
         \<and> (\<forall>x y. py_mul ops (JFloat x) (JFloat y) = Inr (JFloat (fl_mul ops x y)))
         \<and> (\<forall>i j. py_mul ops (JInt i) (JInt j) = Inr (JInt (i * j)))
         \<and> (\<forall>rates currency. currency_key (ExchangeProcessor rates currency)
               = ''conv'' @ str_lower currency @ ''value'')
         \<and> str_lower ''USD'' = ''usd''"
proof -
  from assms(1) have "map_of data ''convvalue'' \<noteq> None"
    by (auto simp: dict_get_def split: option.splits)
  then obtain v where v: "map_of data ''convvalue'' = Some v" by auto
  have "exchange_process ops ex data =
           (case py_mul ops rate (dict_get data ''convvalue'') of
              Inl e \<Rightarrow> (data, Some e)
            | Inr product \<Rightarrow> (dict_set (currency_key ex) product data, None))"
    using assms v by (simp add: exchange_process_def dict_get_def dict_index_def)
  moreover have "str_lower ''USD'' = ''usd''"
    by code_simp
  ultimately show ?thesis
    by (simp add: map_of_dict_set py_mul_def ExchangeProcessor_def)
qed

theorem exchange_process_converts_witness:
  "exchange_process integral_floats (ExchangeProcessor [(''DKK'', JFloat 2)] ''USD'')
     [(''convvalue'', JFloat 5), (''convvalueunit'', JStr ''DKK'')]
   = ([(''convvalue'', JFloat 5), (''convvalueunit'', JStr ''DKK''),
       (''convusdvalue'', JFloat 10)], None)"
proof -
  let ?ex = "ExchangeProcessor [(''DKK'', JFloat (2::int))] ''USD''"
  let ?d = "[(''convvalue'', JFloat (5::int)), (''convvalueunit'', JStr ''DKK'')]"
  have k: "currency_key ?ex = ''convusdvalue''"
    by code_simp
  have h1: "truthy integral_floats (dict_get ?d ''convvalue'')"
    by (simp add: dict_get_def integral_floats_def)
  have h2: "map_of ?d ''convvalueunit'' = Some (JStr ''DKK'')"
    by simp
  have h3: "''DKK'' \<noteq> default_currency ?ex"
    by (simp add: ExchangeProcessor_def)
  have h4: "map_of (ex_rates ?ex) ''DKK'' = Some (JFloat 2)"
    by (simp add: ExchangeProcessor_def)
  have "exchange_process integral_floats ?ex ?d =
          (case py_mul integral_floats (JFloat 2) (dict_get ?d ''convvalue'') of
             Inl e \<Rightarrow> (?d, Some e)
           | Inr product \<Rightarrow> (dict_set (currency_key ?ex) product ?d, None))"
    using exchange_process_converts [OF h1 h2 h3 h4] by (rule conjunct1)
  then show ?thesis
    by (simp add: k dict_get_def py_mul_def integral_floats_def)
qed

text \<open>
  C3 as it is worded fails: the record \<^verbatim>\<open>{"convvalue": "12.5", "convvalueunit": "DKK"}\<close>
  has a truthy \<^verbatim>\<open>convvalue\<close> and a unit that is a key of the rate table and not the
  target currency, the rate of DKK is a float, and \<^verbatim>\<open>process\<close> raises TypeError and
  stores nothing.
\<close>

theorem exchange_process_product_counterexample:
  "truthy integral_floats
     (dict_get [(''convvalue'', JStr ''12.5''), (''convvalueunit'', JStr ''DKK'')] ''convvalue'')
   \<and> dict_get [(''convvalue'', JStr ''12.5''), (''convvalueunit'', JStr ''DKK'')] ''convvalueunit''
        \<noteq> JStr (default_currency (ExchangeProcessor [(''DKK'', JFloat 2)] ''USD''))
   \<and> map_of (ex_rates (ExchangeProcessor [(''DKK'', JFloat 2)] ''USD'')) ''DKK'' = Some (JFloat 2)
   \<and> exchange_process integral_floats (ExchangeProcessor [(''DKK'', JFloat 2)] ''USD'')
        [(''convvalue'', JStr ''12.5''), (''convvalueunit'', JStr ''DKK'')]
      = ([(''convvalue'', JStr ''12.5''), (''convvalueunit'', JStr ''DKK'')], Some TypeError)"
  by (simp add: exchange_process_def dict_get_def dict_index_def ExchangeProcessor_def py_mul_def)

subsection \<open>The validation stage\<close>



text \<open>
  C10. A record whose \<^verbatim>\<open>linkid\<close> is the integer 1 is not treated as invalid:
  \<^verbatim>\<open>is_valid_uuid\<close> catches ValueError only, \<^verbatim>\<open>uuid.UUID(1)\<close> raises AttributeError, and
  the exception leaves both \<^verbatim>\<open>ValidationProcessor.process\<close> and, in strict mode,
  \<^verbatim>\<open>SplittingProcessor.process\<close>.
\<close>

theorem stages_raise_on_non_string_linkid:
  "is_valid_uuid (JInt 1) = Inl AttributeError
   \<and> validation_process ops vp [(''linkid'', JInt 1)]
       = ([(''linkid'', JInt 1)], vp, Some AttributeError)
   \<and> splitting_process ops (SplittingProcessor path True)
        [(''linkid'', JInt 1), (''type'', JStr ''click'')]
      = ([(''linkid'', JInt 1), (''type'', JStr ''click'')], SplittingProcessor path True,
         Some AttributeError)"
  by (simp add: is_valid_uuid_def validation_process_def splitting_process_def
      SplittingProcessor_def dict_get_def dict_index_def)

subsection \<open>No stage removes a field\<close>

lemma exchange_process_cases:
  "exchange_process ops ex data = (data', e) \<Longrightarrow>
     data' = data \<or> (\<exists>v. data' = dict_set (currency_key ex) v data)"
  by (auto simp: exchange_process_def split: if_splits sum.splits)

lemma validation_process_data: "fst (validation_process ops vp data) = data"
  by (simp add: validation_process_def validation_write_def split: sum.splits prod.splits)

lemma splitting_process_data: "fst (splitting_process ops sp data) = data"
  by (simp add: splitting_process_def splitting_write_def
      split: sum.splits prod.splits option.splits)

text \<open>
  C9. Whichever of the three processors \<^verbatim>\<open>process\<close> is called on, if the call returns
  normally then every key the record had before the call is a key of the record after
  it.
\<close>

theorem process_keeps_keys:
  assumes "process ops pipe data = (data', pipe', None)"
  shows "fst ` set data \<subseteq> fst ` set data'"
proof (cases pipe)
  case (Exchange ex)
  with assms have "exchange_process ops ex data = (data', None)"
    by (simp split: prod.splits)
  then have "data' = data \<or> (\<exists>v. data' = dict_set (currency_key ex) v data)"
    by (rule exchange_process_cases)
  then show ?thesis
  proof
    assume "data' = data"
    then show ?thesis by simp
  next
    assume "\<exists>v. data' = dict_set (currency_key ex) v data"
    then obtain v where "data' = dict_set (currency_key ex) v data" ..
    then have "fst ` set data' = insert (currency_key ex) (fst ` set data)"
      by (simp add: keys_dict_set)
    then show ?thesis by blast
  qed
next
  case (Validation vp)
  with assms have "fst (validation_process ops vp data) = data'"
    by (simp split: prod.splits)
  then show ?thesis
    by (simp add: validation_process_data)
next
  case (Splitting sp)
  with assms have "fst (splitting_process ops sp data) = data'"
    by (simp split: prod.splits)
  then show ?thesis
    by (simp add: splitting_process_data)
qed

theorem process_keeps_keys_witness:
  "fst ` set ([(''convvalue'', JInt 5), (''convvalueunit'', JStr ''DKK'')] :: int dict)
     \<subseteq> fst ` set ([(''convvalue'', JInt 5), (''convvalueunit'', JStr ''DKK''),
                     (''convusdvalue'', JInt 10)] :: int dict)"
proof -
  let ?ex = "ExchangeProcessor [(''DKK'', JInt 2)] ''USD'' :: int exchange"
  have k: "str_lower ''USD'' = ''usd''"
    by code_simp
  have "process integral_floats (Exchange ?ex)
          [(''convvalue'', JInt 5), (''convvalueunit'', JStr ''DKK'')]
        = ([(''convvalue'', JInt 5), (''convvalueunit'', JStr ''DKK''),
            (''convusdvalue'', JInt 10)], Exchange ?ex, None)"
    by (simp add: exchange_process_def dict_get_def dict_index_def py_mul_def
        ExchangeProcessor_def k)
  then show ?thesis
    by (rule process_keeps_keys)
qed

subsection \<open>The splitting stage\<close>

lemma map_of_append_fresh:
  "k \<notin> fst ` set pre \<Longrightarrow> map_of (pre @ (k, w) # rest) k = Some w"
  by (induction pre) auto

lemma dict_set_append_fresh:
  "k \<notin> fst ` set pre \<Longrightarrow> dict_set k v (pre @ (k, w) # rest) = pre @ (k, v) # rest"
  by (induction pre) auto

lemma map_of_None_fresh: "map_of xs k = None \<Longrightarrow> k \<notin> fst ` set xs"
  by (simp add: map_of_eq_None_iff)






lemma close_keys_closes:
  "distinct (map fst (pre @ cache)) \<Longrightarrow>
     close_keys (map fst cache) (pre @ cache) = (pre @ close_sinks cache, None)"
proof (induction cache arbitrary: pre)
  case Nil
  then show ?case by (simp add: close_sinks_def)
next
  case (Cons p cache)
  obtain k w where p: "p = (k, w)" by (cases p)
  from Cons.prems p have fresh: "k \<notin> fst ` set pre"
    by auto
  from Cons.prems p have d: "distinct (map fst ((pre @ [(k, sink_close w)]) @ cache))"
    by auto
  have "close_keys (map fst (p # cache)) (pre @ p # cache)
        = close_keys (map fst cache) ((pre @ [(k, sink_close w)]) @ cache)"
    using p map_of_append_fresh [OF fresh, of w cache]
      dict_set_append_fresh [OF fresh, of "sink_close w" w cache]
    by (simp del: map_of_append)
  also have "\<dots> = ((pre @ [(k, sink_close w)]) @ close_sinks cache, None)"
    using d by (rule Cons.IH)
  finally show ?case
    using p by (simp add: close_sinks_def)
qed

lemma splitting_close_closes:
  "distinct (map fst (cached_writers sp)) \<Longrightarrow>
     splitting_close sp = (sp\<lparr>cached_writers := close_sinks (cached_writers sp)\<rparr>, None)"
  using close_keys_closes [of "[]" "cached_writers sp"]
  by (simp add: splitting_close_def)

text \<open>
  C2. Whatever the cache of the splitter holds (a dict: no key twice),
  \<^verbatim>\<open>SplittingProcessor.close\<close> raises nothing and closes every writer in it: the loop
  over the keys finds, under each key, the writer stored there. The keys, the paths and
  the records written stay as they were.
\<close>

theorem splitting_close_closes_every_sink:
  assumes "distinct (map fst (cached_writers sp))"
  shows "splitting_close sp = (sp\<lparr>cached_writers := close_sinks (cached_writers sp)\<rparr>, None)
    \<and> map fst (close_sinks (cached_writers sp)) = map fst (cached_writers sp)
    \<and> (\<forall>(k, w) \<in> set (cached_writers (fst (splitting_close sp))). sink_closed w)
    \<and> (\<forall>(k, w) \<in> set (cached_writers sp).
          \<exists>w'. (k, w') \<in> set (cached_writers (fst (splitting_close sp)))
             \<and> sink_closed w' \<and> sink_lines w' = sink_lines w \<and> sink_path w' = sink_path w)"
proof -
  have c: "splitting_close sp = (sp\<lparr>cached_writers := close_sinks (cached_writers sp)\<rparr>, None)"
    using assms by (rule splitting_close_closes)
  have "map fst (close_sinks (cached_writers sp)) = map fst (cached_writers sp)"
    by (induction "cached_writers sp") (auto simp: close_sinks_def)
  moreover have "\<forall>(k, w) \<in> set (close_sinks (cached_writers sp)). sink_closed w"
    by (auto simp: close_sinks_def sink_close_def)
  moreover have "\<forall>(k, w) \<in> set (cached_writers sp).
          \<exists>w'. (k, w') \<in> set (close_sinks (cached_writers sp))
             \<and> sink_closed w' \<and> sink_lines w' = sink_lines w \<and> sink_path w' = sink_path w"
    by (force simp: close_sinks_def sink_close_def)
  ultimately show ?thesis
    using c by simp
qed

theorem splitting_close_closes_every_sink_witness:
  "splitting_close
     \<lparr>output_path = ''./{type}.json'',
      cached_writers =
        [(KStr ''click'', \<lparr>sink_path = ''./click.json'', sink_lines = [[(''type'', JStr ''click'')]],
                            sink_closed = False\<rparr>),
         (KStr ''view'', \<lparr>sink_path = ''./view.json'', sink_lines = [], sink_closed = False\<rparr>)],
      strict_uuid = True\<rparr>
   = (\<lparr>output_path = ''./{type}.json'',
      cached_writers =
        [(KStr ''click'', \<lparr>sink_path = ''./click.json'', sink_lines = [[(''type'', JStr ''click'')]],
                            sink_closed = True\<rparr>),
         (KStr ''view'', \<lparr>sink_path = ''./view.json'', sink_lines = [], sink_closed = True\<rparr>)],
      strict_uuid = True\<rparr> :: int splitter, None)"
proof -
  let ?sp = "\<lparr>output_path = ''./{type}.json'',
      cached_writers =
        [(KStr ''click'', \<lparr>sink_path = ''./click.json'', sink_lines = [[(''type'', JStr ''click'')]],
                            sink_closed = False\<rparr>),
         (KStr ''view'', \<lparr>sink_path = ''./view.json'', sink_lines = [], sink_closed = False\<rparr>)],
      strict_uuid = True\<rparr> :: int splitter"
  have h: "distinct (map fst (cached_writers ?sp))"
    by simp
  show ?thesis
    using splitting_close_closes_every_sink [OF h]
    by (simp add: close_sinks_def sink_close_def)
qed




subsection \<open>The cache of the splitter stays a dict\<close>

lemma nan_below_iff: "nan_below n k = (\<forall>i. k = KNaN i \<longrightarrow> i < n)"
  by (cases k) auto

lemma cache_wf_iff:
  "cache_wf c =
     (distinct (map fst c) \<and> (\<forall>i. KNaN i \<in> fst ` set c \<longrightarrow> i < length c))"
proof -
  have "list_all (nan_below (length c)) (map fst c)
        = (\<forall>i. KNaN i \<in> fst ` set c \<longrightarrow> i < length c)"
    unfolding list_all_iff nan_below_iff set_map by blast
  then show ?thesis
    by (simp add: cache_wf_def)
qed

lemma cache_wf_keys: "map fst c = map fst c' \<Longrightarrow> cache_wf c = cache_wf c'"
proof -
  assume k: "map fst c = map fst c'"
  then have "fst ` set c = fst ` set c'"
    by (metis set_map)
  moreover from k have "length c = length c'"
    by (metis length_map)
  ultimately show ?thesis
    using k by (simp add: cache_wf_iff)
qed

lemma dict_set_keys_present: "k \<in> fst ` set c \<Longrightarrow> map fst (dict_set k v c) = map fst c"
  by (induction c) auto

lemma key_of_NaN: "key_of ops n h = KNaN i \<Longrightarrow> i = n"
  by (cases h) (auto split: if_splits option.splits)

lemma cache_wf_append:
  assumes "cache_wf c" and "map_of c (key_of ops (length c) h) = None"
  shows "cache_wf (c @ [(key_of ops (length c) h, w)])"
proof -
  have fresh: "key_of ops (length c) h \<notin> fst ` set c"
    using assms(2) by (rule map_of_None_fresh)
  have "i < Suc (length c)" if "KNaN i \<in> insert (key_of ops (length c) h) (fst ` set c)" for i
  proof (cases "KNaN i = key_of ops (length c) h")
    case True
    then have "i = length c" using key_of_NaN [of ops "length c" h i] by simp
    then show ?thesis by simp
  next
    case False
    with that have "KNaN i \<in> fst ` set c" by simp
    with assms(1) have "i < length c" by (simp add: cache_wf_iff)
    then show ?thesis by simp
  qed
  then show ?thesis
    using assms(1) fresh by (simp add: cache_wf_iff)
qed

lemma get_writer_wf:
  "cache_wf (cached_writers sp) \<Longrightarrow> cache_wf (cached_writers (fst (get_writer ops sp t)))"
  by (auto simp: get_writer_def Let_def cache_wf_append split: sum.splits)

lemma splitting_write_wf:
  assumes "cache_wf (cached_writers sp)"
  shows "cache_wf (cached_writers (fst (snd (splitting_write ops sp data))))"
proof (cases "dict_index data ''type''")
  case (Inl e)
  then show ?thesis using assms by (simp add: splitting_write_def)
next
  case (Inr t)
  obtain sp' r where g: "get_writer ops sp t = (sp', r)" by (cases "get_writer ops sp t")
  have wf': "cache_wf (cached_writers sp')"
    using get_writer_wf [OF assms, of ops t] g by simp
  show ?thesis
  proof (cases r)
    case (Inl e)
    then show ?thesis using Inr g wf' by (simp add: splitting_write_def)
  next
    case r: (Inr k)
    show ?thesis
    proof (cases "map_of (cached_writers sp') k")
      case None
      then show ?thesis using Inr g r wf' by (simp add: splitting_write_def)
    next
      case (Some w)
      then have "k \<in> fst ` set (cached_writers sp')"
        by (metis map_of_None_fresh map_of_eq_None_iff option.distinct(1))
      then have "map fst (dict_set k (fst (sink_write w data)) (cached_writers sp'))
                 = map fst (cached_writers sp')"
        by (rule dict_set_keys_present)
      then have "cache_wf (dict_set k (fst (sink_write w data)) (cached_writers sp'))"
        using wf' cache_wf_keys by blast
      moreover obtain w' e where "sink_write w data = (w', e)"
        by (cases "sink_write w data")
      ultimately show ?thesis
        using Inr g r Some by (simp add: splitting_write_def)
    qed
  qed
qed

lemma splitting_process_wf:
  assumes "cache_wf (cached_writers sp)"
  shows "cache_wf (cached_writers (fst (snd (splitting_process ops sp data))))"
  using assms splitting_write_wf [OF assms, of ops data]
  by (simp add: splitting_process_def split: sum.splits)

subsection \<open>The run\<close>

lemma process_all_three:
  "process_all ops [Exchange ex, Validation vp, Splitting sp] d =
     (case exchange_process ops ex d of
        (d1, Some e) \<Rightarrow> (d1, [Exchange ex, Validation vp, Splitting sp], Some e)
      | (d1, None) \<Rightarrow>
        (case validation_process ops vp d1 of
           (d2, vp', Some e) \<Rightarrow> (d2, [Exchange ex, Validation vp', Splitting sp], Some e)
         | (d2, vp', None) \<Rightarrow>
           (case splitting_process ops sp d2 of
              (d3, sp', e) \<Rightarrow> (d3, [Exchange ex, Validation vp', Splitting sp'], e))))"
  by (simp split: prod.splits option.splits)

lemma close_all_three:
  assumes "cache_wf (cached_writers sp)"
  shows "close_all [Exchange ex, Validation vp, Splitting sp] =
           ([Exchange ex, Validation (validation_close vp),
             Splitting (sp\<lparr>cached_writers := close_sinks (cached_writers sp)\<rparr>)], None)"
proof -
  from assms have "distinct (map fst (cached_writers sp))"
    by (simp add: cache_wf_iff)
  then have "splitting_close sp =
               (sp\<lparr>cached_writers := close_sinks (cached_writers sp)\<rparr>, None)"
    by (rule splitting_close_closes)
  then show ?thesis
    by (simp add: exchange_close_def)
qed

lemma run_loop_in_order:
  assumes "stages_in_order ops (ex, vp, sp) stream = Some (ex', vp', sp')"
    and "cache_wf (cached_writers sp)"
  shows "run_loop ops [Exchange ex, Validation vp, Splitting sp] stream n =
           ([Exchange ex', Validation (validation_close vp'),
             Splitting (sp'\<lparr>cached_writers := close_sinks (cached_writers sp')\<rparr>)],
            n + int (length stream), None)"
  using assms
proof (induction stream arbitrary: vp sp n)
  case Nil
  then show ?case by (simp add: close_all_three del: close_all.simps)
next
  case (Cons d stream)
  obtain d1 e1 where x: "exchange_process ops ex d = (d1, e1)"
    by (cases "exchange_process ops ex d")
  obtain d2 vp1 e2 where v: "validation_process ops vp d1 = (d2, vp1, e2)"
    by (cases "validation_process ops vp d1")
  obtain d3 sp1 e3 where s: "splitting_process ops sp d2 = (d3, sp1, e3)"
    by (cases "splitting_process ops sp d2")
  from Cons.prems(1) x have e1: "e1 = None"
    by (cases e1) auto
  from Cons.prems(1) x v e1 have e2: "e2 = None"
    by (cases e2) auto
  from Cons.prems(1) x v s e1 e2 have e3: "e3 = None"
    by (cases e3) auto
  from Cons.prems(1) x v s e1 e2 e3
  have rest: "stages_in_order ops (ex, vp1, sp1) stream = Some (ex', vp', sp')"
    by simp
  have wf: "cache_wf (cached_writers sp1)"
    using splitting_process_wf [OF Cons.prems(2), of ops d2] s by simp
  have "run_loop ops [Exchange ex, Validation vp, Splitting sp] (d # stream) n
        = run_loop ops [Exchange ex, Validation vp1, Splitting sp1] stream (n + 1)"
    using x v s e1 e2 e3 by (simp add: process_all_three del: process_all.simps)
  also have "\<dots> = ([Exchange ex', Validation (validation_close vp'),
             Splitting (sp'\<lparr>cached_writers := close_sinks (cached_writers sp')\<rparr>)],
            (n + 1) + int (length stream), None)"
    using rest wf by (rule Cons.IH)
  finally show ?case by simp
qed

lemma run_loop_aborts:
  assumes "stages_in_order ops (ex, vp, sp) stream = None"
  shows "\<exists>pipes m e. run_loop ops [Exchange ex, Validation vp, Splitting sp] stream n
                       = (pipes, m, Some e)"
  using assms
proof (induction stream arbitrary: vp sp n)
  case Nil
  then show ?case by simp
next
  case (Cons d stream)
  obtain d1 e1 where x: "exchange_process ops ex d = (d1, e1)"
    by (cases "exchange_process ops ex d")
  obtain d2 vp1 e2 where v: "validation_process ops vp d1 = (d2, vp1, e2)"
    by (cases "validation_process ops vp d1")
  obtain d3 sp1 e3 where s: "splitting_process ops sp d2 = (d3, sp1, e3)"
    by (cases "splitting_process ops sp d2")
  show ?case
  proof (cases "e1 = None \<and> e2 = None \<and> e3 = None")
    case True
    with Cons.prems x v s have "stages_in_order ops (ex, vp1, sp1) stream = None"
      by simp
    then have "\<exists>pipes m e. run_loop ops [Exchange ex, Validation vp1, Splitting sp1] stream (n + 1)
                            = (pipes, m, Some e)"
      by (rule Cons.IH)
    moreover have "run_loop ops [Exchange ex, Validation vp, Splitting sp] (d # stream) n
        = run_loop ops [Exchange ex, Validation vp1, Splitting sp1] stream (n + 1)"
      using x v s True by (simp add: process_all_three del: process_all.simps)
    ultimately show ?thesis by simp
  next
    case False
    show ?thesis
    proof (cases e1)
      case (Some e)
      then show ?thesis
        using x by (simp add: process_all_three del: process_all.simps)
    next
      case None
      show ?thesis
      proof (cases e2)
        case (Some e)
        then show ?thesis
          using x v None by (simp add: process_all_three del: process_all.simps)
      next
        case e2: None
        with False None obtain e where "e3 = Some e"
          by (cases e3) auto
        then show ?thesis
          using x v s None e2 by (simp add: process_all_three del: process_all.simps)
      qed
    qed
  qed
qed

lemma initial_cache_wf: "cache_wf (cached_writers (SplittingProcessor path strict))"
  by (simp add: SplittingProcessor_def cache_wf_iff)

text \<open>
  C1, as the code has it. Take the run of the script on a finite stream of \<open>N\<close> records.
  If no processor raises on any record, then the run is the one the specification
  describes: every record has gone through the currency, the validation and the
  splitting stage, in this order, the counter has been incremented once per record,
  every stage has been closed at the end of the stream (the dead-letter writer and
  every writer of the splitter are closed), and the count reported is \<open>N\<close>. If some
  processor raises on some record, the run ends there and reports no count.
\<close>

theorem run_main_reports_count:
  "(\<forall>ex' vp' sp'.
      stages_in_order ops
        (ExchangeProcessor rates ''USD'', ValidationProcessor ''./deadletters.json'',
         SplittingProcessor ''./{type}.json'' True) stream = Some (ex', vp', sp')
      \<longrightarrow> run_main ops rates stream =
            ([Exchange ex', Validation (validation_close vp'),
              Splitting (sp'\<lparr>cached_writers := close_sinks (cached_writers sp')\<rparr>)],
             int (length stream), None)
          \<and> reported_rows (run_main ops rates stream) = Some (int (length stream))
          \<and> sink_closed (errors_logger (validation_close vp'))
          \<and> (\<forall>(k, w) \<in> set (close_sinks (cached_writers sp')). sink_closed w))
   \<and> (stages_in_order ops
        (ExchangeProcessor rates ''USD'', ValidationProcessor ''./deadletters.json'',
         SplittingProcessor ''./{type}.json'' True) stream = None
      \<longrightarrow> reported_rows (run_main ops rates stream) = None)"
proof (intro conjI allI impI)
  fix ex' vp' sp'
  assume s: "stages_in_order ops
        (ExchangeProcessor rates ''USD'', ValidationProcessor ''./deadletters.json'',
         SplittingProcessor ''./{type}.json'' True) stream = Some (ex', vp', sp')"
  have r: "run_main ops rates stream =
            ([Exchange ex', Validation (validation_close vp'),
              Splitting (sp'\<lparr>cached_writers := close_sinks (cached_writers sp')\<rparr>)],
             int (length stream), None)"
    using run_loop_in_order [OF s initial_cache_wf, of 0]
    by (simp add: run_main_def main_pipelines_def)
  show "run_main ops rates stream =
            ([Exchange ex', Validation (validation_close vp'),
              Splitting (sp'\<lparr>cached_writers := close_sinks (cached_writers sp')\<rparr>)],
             int (length stream), None)"
    by (rule r)
  show "reported_rows (run_main ops rates stream) = Some (int (length stream))"
    by (simp add: r reported_rows_def)
  show "sink_closed (errors_logger (validation_close vp'))"
    by (simp add: validation_close_def sink_close_def)
  show "\<forall>(k, w) \<in> set (close_sinks (cached_writers sp')). sink_closed w"
    by (auto simp: close_sinks_def sink_close_def)
next
  assume "stages_in_order ops
        (ExchangeProcessor rates ''USD'', ValidationProcessor ''./deadletters.json'',
         SplittingProcessor ''./{type}.json'' True) stream = None"
  then obtain pipes m e where
    "run_loop ops [Exchange (ExchangeProcessor rates ''USD''),
                   Validation (ValidationProcessor ''./deadletters.json''),
                   Splitting (SplittingProcessor ''./{type}.json'' True)] stream 0
     = (pipes, m, Some e)"
    using run_loop_aborts by blast
  then show "reported_rows (run_main ops rates stream) = None"
    by (simp add: run_main_def main_pipelines_def reported_rows_def)
qed

theorem run_main_reports_count_witness:
  "reported_rows
     (run_main integral_floats [(''DKK'', JFloat 2)]
        [[(''boardid'', JStr ''b'')], [(''type'', JStr ''click'')]])
   = Some 2"
proof -
  let ?stream = "[[(''boardid'', JStr ''b'')], [(''type'', JStr ''click'')]] :: int dict list"
  let ?rates = "[(''DKK'', JFloat 2)] :: int dict"
  have "stages_in_order integral_floats
          (ExchangeProcessor ?rates ''USD'', ValidationProcessor ''./deadletters.json'',
           SplittingProcessor ''./{type}.json'' True) ?stream
        = Some (ExchangeProcessor ?rates ''USD'',
                \<lparr>errors_output = ''./deadletters.json'',
                 errors_logger = \<lparr>sink_path = ''./deadletters.json'',
                                   sink_lines = ?stream, sink_closed = False\<rparr>\<rparr>,
                SplittingProcessor ''./{type}.json'' True)"
    by (simp add: exchange_process_def validation_process_def validation_write_def
        sink_write_def splitting_process_def dict_get_def ValidationProcessor_def
        jsonlines_open_def SplittingProcessor_def)
  with run_main_reports_count [of integral_floats ?rates ?stream]
  have "reported_rows (run_main integral_floats ?rates ?stream) = Some (int (length ?stream))"
    by blast
  then show ?thesis by simp
qed

text \<open>
  C1 as it is worded fails: a stream of one record whose currency is not in the rate
  table ends the run with KeyError in the first stage; the counter is still 0, no
  stage is closed and no count is reported.
\<close>

theorem run_main_abort_counterexample:
  "length [[(''convvalue'', JInt 5), (''convvalueunit'', JStr ''XYZ'')]] = 1
   \<and> run_main integral_floats [(''DKK'', JFloat 2)]
        [[(''convvalue'', JInt 5), (''convvalueunit'', JStr ''XYZ'')]]
      = (main_pipelines [(''DKK'', JFloat 2)], 0, Some KeyError)
   \<and> reported_rows
        (run_main integral_floats [(''DKK'', JFloat 2)]
           [[(''convvalue'', JInt 5), (''convvalueunit'', JStr ''XYZ'')]])
      = None"
  by (simp add: run_main_def main_pipelines_def reported_rows_def exchange_process_def
      dict_get_def dict_index_def ExchangeProcessor_def)

subsection \<open>UUID validation\<close>



























end
